theory Spec2Isabelle
  imports Main "HOL-Library.Word"
begin

section \<open>Memory model\<close>

text \<open>
  The decoders of package gopacket allocate layer objects and hand out pointers to them:
  \<^verbatim>\<open>decodePayload\<close> stores one pointer both in its result and in the
  \<^verbatim>\<open>specificLayers\<close> struct it receives by reference. The model therefore has an
  explicit store. Go never frees an object that is still reachable, so the store only
  grows: it is the list of all objects allocated so far and an address is an index into it.
  A \<^verbatim>\<open>[]byte\<close> is modelled by the sequence of its bytes (a nil slice and an empty
  slice both have length 0 and both are the empty list).
\<close>

type_synonym byte = "8 word"
type_synonym bytes = "byte list"
type_synonym addr = nat

text \<open>
  A run-time panic is a value. \<open>NilDereference\<close> is Go's "invalid memory address or nil
  pointer dereference". \<open>BadPointer\<close> is the model's answer for an address that holds no
  object of the pointer's static type; Go's type system excludes such pointers.
\<close>

datatype panic = NilDereference | BadPointer

text \<open>
  Modelled from the spec: the type \<^verbatim>\<open>LayerType\<close> and the constant
  \<^verbatim>\<open>TYPE_DECODE_FAILURE\<close> are declared elsewhere in the package. Section 4.1: type
  tags form an open enumeration plus one reserved tag for decode failure.
\<close>

datatype LayerType = TYPE_DECODE_FAILURE | TYPE_PROTOCOL nat

text \<open>
  An interface value is its dynamic type together with the pointer it holds; the nil
  interface is \<open>None\<close> of the option type. \<^verbatim>\<open>Layer\<close> values point to a
  \<^verbatim>\<open>Payload\<close>, to a \<^verbatim>\<open>DecodeFailure\<close> or to a layer of some protocol
  module; the \<^verbatim>\<open>error\<close> values built in this file come from
  \<^verbatim>\<open>errors.New\<close> and point to an error string.
\<close>

datatype Layer = PayloadRef addr | DecodeFailureRef addr | ProtocolRef addr

datatype error = ErrorStringRef addr

text \<open>
  Modelled from the spec: the struct \<^verbatim>\<open>Payload\<close> is declared elsewhere in the
  package; \<^verbatim>\<open>decodePayload\<close> builds it as \<^verbatim>\<open>Payload{Data: data}\<close>. Section 3:
  a generic payload layer is the undecodable remainder wrapped verbatim.
\<close>

record Payload =
  Data :: bytes

text \<open>The struct \<^verbatim>\<open>DecodeFailure\<close> with its fields \<^verbatim>\<open>data\<close> and \<^verbatim>\<open>err\<close>.\<close>

record DecodeFailure =
  df_data :: bytes
  df_err :: "error option"

text \<open>
  Modelled from the spec: the struct \<^verbatim>\<open>specificLayers\<close> is declared elsewhere in
  the package; \<^verbatim>\<open>decodePayload\<close> writes its field \<^verbatim>\<open>application\<close>. Section 3:
  a small struct of optional slots: link layer, network layer, transport layer,
  application layer, error layer.
\<close>

record specificLayers =
  link :: "Layer option"
  network :: "Layer option"
  transport :: "Layer option"
  application :: "Layer option"
  errorLayer :: "Layer option"

datatype object =
    PayloadObj Payload
  | DecodeFailureObj DecodeFailure
  | ErrorStringObj string
  | SpecificLayersObj specificLayers
  | ProtocolLayerObj LayerType bytes

type_synonym heap = "object list"

definition lookup :: "heap \<Rightarrow> addr \<Rightarrow> object option" where
  "lookup h a = (if a < length h then Some (h ! a) else None)"

text \<open>Allocation (\<^verbatim>\<open>&T{...}\<close>) appends the object and returns its address.\<close>

definition alloc :: "object \<Rightarrow> heap \<Rightarrow> addr \<times> heap" where
  "alloc obj h = (length h, h @ [obj])"

text \<open>
  \<^verbatim>\<open>errors.New(text)\<close> of the Go standard library returns a pointer to a newly
  allocated error string, so two calls never return the same pointer.
\<close>

definition errors_New :: "string \<Rightarrow> heap \<Rightarrow> error \<times> heap" where
  "errors_New msg h = (let (a, h') = alloc (ErrorStringObj msg) h in (ErrorStringRef a, h'))"

section \<open>The decoder contract\<close>

text \<open>
  \<^verbatim>\<open>decodeResult\<close> holds the next decoder, and a decoder is a function that returns
  a \<^verbatim>\<open>decodeResult\<close>, so the two types are defined together. A decoder takes the
  bytes, the pointer to the \<^verbatim>\<open>specificLayers\<close> struct (nil is \<open>None\<close>) and the
  store; it panics or returns its result and the new store (a nil function value is the
  function that panics on every call). The field \<^verbatim>\<open>next\<close> is written \<open>nxt\<close>.
\<close>

datatype decodeResult =
    DecodeResult (err: "error option") (layer: "Layer option") (nxt: "decoder option") (left: bytes)
and decoder =
    DecoderFunc "bytes \<Rightarrow> addr option \<Rightarrow> heap \<Rightarrow> panic + decodeResult \<times> heap"

type_synonym decoderFunc = "bytes \<Rightarrow> addr option \<Rightarrow> heap \<Rightarrow> panic + decodeResult \<times> heap"

text \<open>The method \<^verbatim>\<open>decode\<close> of \<^verbatim>\<open>decoderFunc\<close>: function, call thyself.\<close>

fun decode :: "decoder \<Rightarrow> bytes \<Rightarrow> addr option \<Rightarrow> heap \<Rightarrow> panic + decodeResult \<times> heap" where
  "decode (DecoderFunc d) data s h = d data s h"

text \<open>The zero value of \<^verbatim>\<open>decodeResult\<close>, which a named result starts from.\<close>

definition zero_decodeResult :: decodeResult where
  "zero_decodeResult = DecodeResult None None None []"

fun set_err :: "error option \<Rightarrow> decodeResult \<Rightarrow> decodeResult" where
  "set_err e (DecodeResult _ l n b) = DecodeResult e l n b"

fun set_layer :: "Layer option \<Rightarrow> decodeResult \<Rightarrow> decodeResult" where
  "set_layer l (DecodeResult e _ n b) = DecodeResult e l n b"

section \<open>DecodeMethod\<close>

type_synonym DecodeMethod = bool

definition Lazy :: DecodeMethod where
  "Lazy = True"

definition Eager :: DecodeMethod where
  "Eager = False"

section \<open>DecodeFailure\<close>

text \<open>
  The three methods have the receiver \<^verbatim>\<open>d *DecodeFailure\<close>. \<^verbatim>\<open>Payload\<close> and
  \<^verbatim>\<open>Error\<close> read a field through it; \<^verbatim>\<open>LayerType\<close> does not touch it.
\<close>

definition deref_DecodeFailure :: "heap \<Rightarrow> addr option \<Rightarrow> panic + DecodeFailure" where
  "deref_DecodeFailure h d =
     (case d of
        None \<Rightarrow> Inl NilDereference
      | Some a \<Rightarrow>
          (case lookup h a of
             Some (DecodeFailureObj f) \<Rightarrow> Inr f
           | _ \<Rightarrow> Inl BadPointer))"

definition DecodeFailure_Payload :: "heap \<Rightarrow> addr option \<Rightarrow> panic + bytes" where
  "DecodeFailure_Payload h d = map_sum id df_data (deref_DecodeFailure h d)"

definition DecodeFailure_Error :: "heap \<Rightarrow> addr option \<Rightarrow> panic + error option" where
  "DecodeFailure_Error h d = map_sum id df_err (deref_DecodeFailure h d)"

definition DecodeFailure_LayerType :: "addr option \<Rightarrow> LayerType" where
  "DecodeFailure_LayerType d = TYPE_DECODE_FAILURE"

section \<open>The two baseline decoders\<close>

text \<open>
  \<^verbatim>\<open>decodeUnknown\<close> ignores both arguments and sets \<^verbatim>\<open>out.err\<close> to a new error.
\<close>

definition decodeUnknown :: decoderFunc where
  "decodeUnknown data s h =
     (let (e, h') = errors_New ''Link type not currently supported'' h
      in Inr (set_err (Some e) zero_decodeResult, h'))"

text \<open>The assignment \<^verbatim>\<open>s.application = payload\<close> through the pointer \<^verbatim>\<open>s\<close>.\<close>

definition store_application :: "addr option \<Rightarrow> Layer option \<Rightarrow> heap \<Rightarrow> panic + heap" where
  "store_application s l h =
     (case s of
        None \<Rightarrow> Inl NilDereference
      | Some a \<Rightarrow>
          (case lookup h a of
             Some (SpecificLayersObj sl) \<Rightarrow> Inr (h[a := SpecificLayersObj (sl\<lparr>application := l\<rparr>)])
           | _ \<Rightarrow> Inl BadPointer))"

text \<open>
  \<^verbatim>\<open>decodePayload\<close> allocates the payload, sets \<^verbatim>\<open>out.layer\<close>, then assigns the
  same pointer to \<^verbatim>\<open>s.application\<close>.
\<close>

definition decodePayload :: decoderFunc where
  "decodePayload data s h =
     (let (payload, h1) = alloc (PayloadObj \<lparr>Data = data\<rparr>) h;
          out = set_layer (Some (PayloadRef payload)) zero_decodeResult
      in case store_application s (Some (PayloadRef payload)) h1 of
           Inl p \<Rightarrow> Inl p
         | Inr h2 \<Rightarrow> Inr (out, h2))"

text \<open>Reading a \<^verbatim>\<open>specificLayers\<close> struct through a pointer.\<close>

definition specificLayers_at :: "heap \<Rightarrow> addr option \<Rightarrow> specificLayers option" where
  "specificLayers_at h s =
     (case s of
        None \<Rightarrow> None
      | Some a \<Rightarrow> (case lookup h a of Some (SpecificLayersObj sl) \<Rightarrow> Some sl | _ \<Rightarrow> None))"


section \<open>Observing results\<close>

text \<open>
  The method \<^verbatim>\<open>Error()\<close> of an error made by \<^verbatim>\<open>errors.New\<close> returns the text
  it was made from.
\<close>

definition error_text :: "heap \<Rightarrow> error \<Rightarrow> string option" where
  "error_text h e =
     (case e of
        ErrorStringRef a \<Rightarrow>
          (case lookup h a of Some (ErrorStringObj m) \<Rightarrow> Some m | _ \<Rightarrow> None))"

text \<open>The object a \<^verbatim>\<open>Layer\<close> value points to.\<close>

definition layer_content :: "heap \<Rightarrow> Layer \<Rightarrow> object option" where
  "layer_content h l =
     (case l of
        PayloadRef a \<Rightarrow> lookup h a
      | DecodeFailureRef a \<Rightarrow> lookup h a
      | ProtocolRef a \<Rightarrow> lookup h a)"

text \<open>
  What a caller can see of a \<^verbatim>\<open>decodeResult\<close> in a given store: the text of the
  failure, the content of the layer, the next decoder and the remainder.
\<close>

definition observe ::
  "heap \<Rightarrow> decodeResult \<Rightarrow> string option option \<times> object option option \<times> decoder option \<times> bytes" where
  "observe h out =
     (map_option (error_text h) (err out), map_option (layer_content h) (layer out), nxt out, left out)"

text \<open>The cause of the failure that a decoder call reports, if it reports one.\<close>

definition failure_cause :: "panic + decodeResult \<times> heap \<Rightarrow> string option" where
  "failure_cause r =
     (case r of
        Inl x \<Rightarrow> None
      | Inr (out, h) \<Rightarrow> (case err out of None \<Rightarrow> None | Some e \<Rightarrow> error_text h e))"

text \<open>The zero value of \<^verbatim>\<open>specificLayers\<close>: every slot is nil.\<close>

definition zero_specificLayers :: specificLayers where
  "zero_specificLayers =
     \<lparr>link = None, network = None, transport = None, application = None, errorLayer = None\<rparr>"

text \<open>Calling a decoder with a newly allocated \<^verbatim>\<open>specificLayers\<close> struct.\<close>

definition call_fresh :: "decoderFunc \<Rightarrow> bytes \<Rightarrow> heap \<Rightarrow> panic + decodeResult \<times> heap" where
  "call_fresh d data h =
     (let (s, h1) = alloc (SpecificLayersObj zero_specificLayers) h in d data (Some s) h1)"

section \<open>Registry, dispatcher and packet\<close>

text \<open>
  Modelled from the spec: the decoder registry is not in the decoder source file. Section 3: a
  mapping from a link-type identifier to the decoder that starts a chain for that type;
  lookup of an unregistered type yields the "unknown" decoder, never an error. Section 6:
  \<^verbatim>\<open>Register(linkType, decoder)\<close> adds or replaces the decoder for a link type.
\<close>

type_synonym LinkType = nat

type_synonym DecoderRegistry = "LinkType \<rightharpoonup> decoder"

text \<open>Modelled from the spec: registration, section 6; the last registration wins.\<close>

definition Register :: "LinkType \<Rightarrow> decoder \<Rightarrow> DecoderRegistry \<Rightarrow> DecoderRegistry" where
  "Register lt d reg = reg(lt \<mapsto> d)"

text \<open>Modelled from the spec: registry lookup, section 3.\<close>

definition registry_lookup :: "DecoderRegistry \<Rightarrow> LinkType \<Rightarrow> decoder" where
  "registry_lookup reg lt = (case reg lt of None \<Rightarrow> DecoderFunc decodeUnknown | Some d \<Rightarrow> d)"

text \<open>
  Modelled from the spec: the packet is not in the decoder source file. Section 3: it owns the
  raw byte buffer, the ordered sequence of decoded layers, the SpecificLayers cache, the
  pending decoder and pending bytes, and the selected evaluation mode. The cache lives in
  the store, since decoders write to it through a pointer. The packet is fully decoded
  when nothing is pending.
\<close>

record packet =
  raw :: bytes
  layers :: "Layer list"
  specific :: addr
  pending :: "(decoder \<times> bytes) option"
  mode :: DecodeMethod

text \<open>
  Modelled from the spec: one step of the dispatcher, which is not in the decoder source file.
  Section 4.3: invoke the current decoder on the current bytes and the shared
  SpecificLayers; if the failure is set, append a synthesized error layer carrying that
  failure and stop; otherwise append the produced layer (if any), and continue with the
  next decoder and the remainder if both exist and the remainder is not empty; otherwise
  stop. The error layer holds the bytes that failed to decode (the comment on
  \<^verbatim>\<open>DecodeFailure.Payload\<close>). A panic of the decoder ends the run.
\<close>

definition dispatch_step :: "packet \<Rightarrow> heap \<Rightarrow> panic + packet \<times> heap" where
  "dispatch_step p h =
     (case pending p of
        None \<Rightarrow> Inr (p, h)
      | Some (d, bs) \<Rightarrow>
          (case decode d bs (Some (specific p)) h of
             Inl x \<Rightarrow> Inl x
           | Inr (res, h1) \<Rightarrow>
               (case err res of
                  Some e \<Rightarrow>
                    (let (f, h2) = alloc (DecodeFailureObj \<lparr>df_data = bs, df_err = Some e\<rparr>) h1
                     in Inr (p\<lparr>layers := layers p @ [DecodeFailureRef f], pending := None\<rparr>, h2))
                | None \<Rightarrow>
                    Inr (p\<lparr>layers := layers p @ (case layer res of None \<Rightarrow> [] | Some l \<Rightarrow> [l]),
                           pending := (case nxt res of
                                         None \<Rightarrow> None
                                       | Some d' \<Rightarrow> if left res = [] then None else Some (d', left res))\<rparr>,
                         h1))))"

text \<open>
  Modelled from the spec: the dispatcher loop, sections 4.3 and 4.4. It runs steps until
  nothing is pending or until the caller has \<open>enough\<close>. The spec does not bound the
  chain (a decoder may return itself as next), so the loop may run forever: its value is
  then \<open>None\<close>.
\<close>

partial_function (option) dispatch ::
  "(packet \<Rightarrow> heap \<Rightarrow> bool) \<Rightarrow> packet \<Rightarrow> heap \<Rightarrow> (panic + packet \<times> heap) option" where
  "dispatch enough p h =
     (if pending p = None \<or> enough p h then Some (Inr (p, h))
      else case dispatch_step p h of
             Inl x \<Rightarrow> Some (Inl x)
           | Inr (p', h') \<Rightarrow> dispatch enough p' h')"

text \<open>Running to completion: the caller never has enough.\<close>

definition never :: "packet \<Rightarrow> heap \<Rightarrow> bool" where
  "never p h = False"

text \<open>
  Modelled from the spec: the layer-accessing operations of the packet, section 6: the
  full layer sequence, the four canonical slots and the error accessor.
\<close>

datatype request = Layers | LinkLayer | NetworkLayer | TransportLayer | ApplicationLayer | ErrorLayer

definition slot :: "(specificLayers \<Rightarrow> Layer option) \<Rightarrow> packet \<Rightarrow> heap \<Rightarrow> Layer option" where
  "slot f p h = (case specificLayers_at h (Some (specific p)) of None \<Rightarrow> None | Some sl \<Rightarrow> f sl)"

text \<open>
  Modelled from the spec: when a request can be answered without decoding further,
  section 4.4. The full sequence needs the whole chain; a slot is answered once it is
  filled; the error accessor is answered once the chain ends with an error layer.
\<close>

fun satisfied :: "request \<Rightarrow> packet \<Rightarrow> heap \<Rightarrow> bool" where
  "satisfied Layers p h = False"
| "satisfied LinkLayer p h = (slot link p h \<noteq> None)"
| "satisfied NetworkLayer p h = (slot network p h \<noteq> None)"
| "satisfied TransportLayer p h = (slot transport p h \<noteq> None)"
| "satisfied ApplicationLayer p h = (slot application p h \<noteq> None)"
| "satisfied ErrorLayer p h =
     (case rev (layers p) of DecodeFailureRef f # ls \<Rightarrow> True | _ \<Rightarrow> False)"

text \<open>
  Modelled from the spec: an access runs the dispatcher only as many additional steps
  as needed to satisfy the request or to reach the fully decoded state, section 4.4.
\<close>

definition access :: "request \<Rightarrow> packet \<Rightarrow> heap \<Rightarrow> (panic + packet \<times> heap) option" where
  "access r p h = dispatch (satisfied r) p h"

text \<open>Sequencing: a run that did not return or that panicked is not continued.\<close>

definition continue_with ::
  "(packet \<Rightarrow> heap \<Rightarrow> (panic + packet \<times> heap) option) \<Rightarrow>
   (panic + packet \<times> heap) option \<Rightarrow> (panic + packet \<times> heap) option" where
  "continue_with k r =
     (case r of
        None \<Rightarrow> None
      | Some (Inl x) \<Rightarrow> Some (Inl x)
      | Some (Inr (p, h)) \<Rightarrow> k p h)"

primrec accesses :: "request list \<Rightarrow> packet \<Rightarrow> heap \<Rightarrow> (panic + packet \<times> heap) option" where
  "accesses [] = (\<lambda>p h. Some (Inr (p, h)))"
| "accesses (r # rs) = (\<lambda>p h. continue_with (accesses rs) (access r p h))"

text \<open>
  Modelled from the spec: creating a packet, section 4.4. The first decoder comes from the
  registry. In Eager mode the dispatcher runs to completion at once; in Lazy mode the
  packet starts with nothing decoded.
\<close>

definition NewPacket ::
  "DecoderRegistry \<Rightarrow> bytes \<Rightarrow> LinkType \<Rightarrow> DecodeMethod \<Rightarrow> heap \<Rightarrow> (panic + packet \<times> heap) option" where
  "NewPacket reg data lt m h =
     (let (s, h1) = alloc (SpecificLayersObj zero_specificLayers) h;
          p = \<lparr>raw = data, layers = [], specific = s,
               pending = Some (registry_lookup reg lt, data), mode = m\<rparr>
      in if m = Eager then dispatch never p h1 else Some (Inr (p, h1)))"

text \<open>
  What decoding produced: the ordered layer sequence, the SpecificLayers contents, and
  the store that holds the content of every layer.
\<close>

definition decoded :: "packet \<times> heap \<Rightarrow> Layer list \<times> specificLayers option \<times> heap" where
  "decoded ph = (layers (fst ph), specificLayers_at (snd ph) (Some (specific (fst ph))), snd ph)"

definition outcome ::
  "(panic + packet \<times> heap) option \<Rightarrow> (panic + Layer list \<times> specificLayers option \<times> heap) option" where
  "outcome r = map_option (map_sum id decoded) r"



text \<open>The same packet state under another evaluation mode.\<close>

definition with_mode :: "DecodeMethod \<Rightarrow> packet \<times> heap \<Rightarrow> packet \<times> heap" where
  "with_mode m ph = ((fst ph)\<lparr>mode := m\<rparr>, snd ph)"

section \<open>The store\<close>

lemma lookup_append_old: "a < length h \<Longrightarrow> lookup (h @ k) a = lookup h a"
  by (simp add: lookup_def nth_append)

lemma lookup_append_new: "lookup (h @ [obj]) (length h) = Some obj"
  by (simp add: lookup_def)

lemma lookup_update_same: "a < length h \<Longrightarrow> lookup (h[a := obj]) a = Some obj"
  by (simp add: lookup_def)

lemma lookup_update_other: "a \<noteq> b \<Longrightarrow> lookup (h[a := obj]) b = lookup h b"
  by (simp add: lookup_def)

lemma specificLayers_at_SomeD:
  "specificLayers_at h s = Some sl \<Longrightarrow>
   \<exists>a. s = Some a \<and> a < length h \<and> lookup h a = Some (SpecificLayersObj sl)"
  by (auto simp: specificLayers_at_def lookup_def split: option.splits object.splits if_splits)

section \<open>decodePayload and decodeUnknown\<close>

text \<open>
  With a pointer to a \<^verbatim>\<open>specificLayers\<close> struct, \<^verbatim>\<open>decodePayload\<close> returns; the
  new store has the payload at the first free address and the struct updated in place.
\<close>

lemma decodePayload_eq:
  assumes "specificLayers_at h s = Some sl"
  shows "decodePayload data s h =
     Inr (DecodeResult None (Some (PayloadRef (length h))) None [],
          (h @ [PayloadObj \<lparr>Data = data\<rparr>])
            [the s := SpecificLayersObj (sl\<lparr>application := Some (PayloadRef (length h))\<rparr>)])"
  using specificLayers_at_SomeD[OF assms]
  by (auto simp: decodePayload_def alloc_def store_application_def zero_decodeResult_def
      lookup_append_old)

text \<open>With a nil pointer the assignment to \<^verbatim>\<open>s.application\<close> panics.\<close>

lemma decodePayload_nil: "decodePayload data None h = Inl NilDereference"
  by (simp add: decodePayload_def alloc_def store_application_def)

lemma decodeUnknown_eq:
  "decodeUnknown data s h =
     Inr (DecodeResult (Some (ErrorStringRef (length h))) None None [],
          h @ [ErrorStringObj ''Link type not currently supported''])"
  by (simp add: decodeUnknown_def errors_New_def alloc_def zero_decodeResult_def)

lemma specificLayers_at_append_other:
  "\<forall>sl. obj \<noteq> SpecificLayersObj sl \<Longrightarrow> specificLayers_at (h @ [obj]) t = specificLayers_at h t"
  by (cases obj) (auto simp: specificLayers_at_def lookup_def nth_append split: option.splits)

text \<open>
  C2: for every byte span, the empty one included, \<^verbatim>\<open>decodePayload\<close> called with a
  \<^verbatim>\<open>specificLayers\<close> struct returns a result with no failure, no next decoder and no
  remaining bytes, whose layer is a Payload holding exactly the input bytes, and the
  application slot of the struct is that Payload layer.
\<close>

theorem decodePayload_succeeds:
  assumes "specificLayers_at h s = Some sl"
  shows "\<exists>p h'. decodePayload data s h = Inr (DecodeResult None (Some (PayloadRef p)) None [], h')
           \<and> lookup h' p = Some (PayloadObj \<lparr>Data = data\<rparr>)
           \<and> map_option application (specificLayers_at h' s) = Some (Some (PayloadRef p))"
  using specificLayers_at_SomeD[OF assms] decodePayload_eq[OF assms, of data]
  by (auto simp: lookup_update_other lookup_append_new lookup_update_same specificLayers_at_def)

theorem decodePayload_succeeds_witness:
  "specificLayers_at [SpecificLayersObj zero_specificLayers] (Some 0) = Some zero_specificLayers \<and>
   (\<exists>p h'. decodePayload [] (Some 0) [SpecificLayersObj zero_specificLayers]
              = Inr (DecodeResult None (Some (PayloadRef p)) None [], h')
           \<and> lookup h' p = Some (PayloadObj \<lparr>Data = []\<rparr>)
           \<and> map_option application (specificLayers_at h' (Some 0)) = Some (Some (PayloadRef p)))"
proof -
  have v: "specificLayers_at [SpecificLayersObj zero_specificLayers] (Some 0) = Some zero_specificLayers"
    by (simp add: specificLayers_at_def lookup_def)
  from v decodePayload_succeeds[OF v, of "[]"] show ?thesis by (rule conjI)
qed

text \<open>
  C3: for every byte span, every pointer and every store, \<^verbatim>\<open>decodeUnknown\<close> returns
  a result whose failure is set and whose layer, next decoder and remainder are absent,
  and every \<^verbatim>\<open>specificLayers\<close> struct of the store is as it was.
\<close>

theorem decodeUnknown_fails:
  "\<exists>e h'. decodeUnknown data s h = Inr (DecodeResult (Some e) None None [], h')
      \<and> (\<forall>t. specificLayers_at h' t = specificLayers_at h t)"
  by (simp add: decodeUnknown_eq specificLayers_at_append_other)

text \<open>
  C5: calling \<^verbatim>\<open>decodePayload\<close> twice in a row on the same bytes, each time with a
  new \<^verbatim>\<open>specificLayers\<close> struct, gives two results with the same layer content, the
  same next decoder, the same remainder and the same failure; likewise for
  \<^verbatim>\<open>decodeUnknown\<close>. (The two layers, and the two errors, are different objects with
  one content.)
\<close>

theorem baseline_decoders_repeatable:
  "(\<exists>out1 h1 out2 h2.
      call_fresh decodePayload data h = Inr (out1, h1) \<and>
      call_fresh decodePayload data h1 = Inr (out2, h2) \<and>
      observe h2 out1 = observe h2 out2 \<and>
      observe h2 out2 = (None, Some (Some (PayloadObj \<lparr>Data = data\<rparr>)), None, [])) \<and>
   (\<exists>out1 h1 out2 h2.
      call_fresh decodeUnknown data h = Inr (out1, h1) \<and>
      call_fresh decodeUnknown data h1 = Inr (out2, h2) \<and>
      observe h2 out1 = observe h2 out2 \<and>
      observe h2 out2 = (Some (Some ''Link type not currently supported''), None, None, []))"
proof (rule conjI)
  have v: "\<And>k. specificLayers_at (k @ [SpecificLayersObj zero_specificLayers]) (Some (length k))
             = Some zero_specificLayers"
    by (simp add: specificLayers_at_def lookup_def)
  show "\<exists>out1 h1 out2 h2.
      call_fresh decodePayload data h = Inr (out1, h1) \<and>
      call_fresh decodePayload data h1 = Inr (out2, h2) \<and>
      observe h2 out1 = observe h2 out2 \<and>
      observe h2 out2 = (None, Some (Some (PayloadObj \<lparr>Data = data\<rparr>)), None, [])"
    by (simp add: call_fresh_def alloc_def decodePayload_eq[OF v] observe_def layer_content_def
        lookup_def nth_append)
  show "\<exists>out1 h1 out2 h2.
      call_fresh decodeUnknown data h = Inr (out1, h1) \<and>
      call_fresh decodeUnknown data h1 = Inr (out2, h2) \<and>
      observe h2 out1 = observe h2 out2 \<and>
      observe h2 out2 = (Some (Some ''Link type not currently supported''), None, None, [])"
    by (simp add: call_fresh_def alloc_def decodeUnknown_eq observe_def error_text_def
        lookup_def nth_append)
qed

text \<open>
  C6: a \<^verbatim>\<open>DecodeFailure\<close> made from bytes \<open>d\<close> and error \<open>e\<close> exposes what it
  stores: \<^verbatim>\<open>Payload()\<close> returns \<open>d\<close>, \<^verbatim>\<open>Error()\<close> returns \<open>e\<close> and
  \<^verbatim>\<open>LayerType()\<close> returns \<^verbatim>\<open>TYPE_DECODE_FAILURE\<close>.
\<close>

theorem DecodeFailure_exposes_fields:
  assumes "lookup h a = Some (DecodeFailureObj \<lparr>df_data = d, df_err = e\<rparr>)"
  shows "DecodeFailure_Payload h (Some a) = Inr d \<and>
         DecodeFailure_Error h (Some a) = Inr e \<and>
         DecodeFailure_LayerType (Some a) = TYPE_DECODE_FAILURE"
  using assms
  by (simp add: DecodeFailure_Payload_def DecodeFailure_Error_def DecodeFailure_LayerType_def
      deref_DecodeFailure_def)

theorem DecodeFailure_exposes_fields_witness:
  "lookup (snd (alloc (DecodeFailureObj \<lparr>df_data = [0x45, 0x00], df_err = Some (ErrorStringRef 0)\<rparr>)
                  [ErrorStringObj ''truncated buffer'']))
          1
     = Some (DecodeFailureObj \<lparr>df_data = [0x45, 0x00], df_err = Some (ErrorStringRef 0)\<rparr>) \<and>
   DecodeFailure_Payload
     (snd (alloc (DecodeFailureObj \<lparr>df_data = [0x45, 0x00], df_err = Some (ErrorStringRef 0)\<rparr>)
                  [ErrorStringObj ''truncated buffer''])) (Some 1) = Inr [0x45, 0x00] \<and>
   DecodeFailure_Error
     (snd (alloc (DecodeFailureObj \<lparr>df_data = [0x45, 0x00], df_err = Some (ErrorStringRef 0)\<rparr>)
                  [ErrorStringObj ''truncated buffer''])) (Some 1) = Inr (Some (ErrorStringRef 0)) \<and>
   DecodeFailure_LayerType (Some 1) = TYPE_DECODE_FAILURE"
proof -
  have v: "lookup (snd (alloc (DecodeFailureObj \<lparr>df_data = [0x45, 0x00], df_err = Some (ErrorStringRef 0)\<rparr>)
                  [ErrorStringObj ''truncated buffer'']))
          1
     = Some (DecodeFailureObj \<lparr>df_data = [0x45, 0x00], df_err = Some (ErrorStringRef 0)\<rparr>)"
    by (simp add: alloc_def lookup_def)
  from v DecodeFailure_exposes_fields[OF v] show ?thesis by (rule conjI)
qed

text \<open>
  C7: the evaluation mode has exactly two values: every \<^verbatim>\<open>DecodeMethod\<close> is Lazy or
  Eager, and the two differ.
\<close>

theorem DecodeMethod_two_values:
  "(\<forall>m::DecodeMethod. m = Lazy \<or> m = Eager) \<and> Lazy \<noteq> Eager"
  by (simp add: Lazy_def Eager_def)

text \<open>
  C8: \<^verbatim>\<open>decodePayload\<close> changes only the application slot of the struct it is given:
  the link, network, transport and error slots keep their values. Of the store as a whole,
  only that struct changes and only the new payload is added.
\<close>

theorem decodePayload_frame:
  assumes "specificLayers_at h s = Some sl"
  shows "\<exists>out h' sl'. decodePayload data s h = Inr (out, h')
           \<and> specificLayers_at h' s = Some sl'
           \<and> link sl' = link sl \<and> network sl' = network sl \<and> transport sl' = transport sl
           \<and> errorLayer sl' = errorLayer sl
           \<and> length h' = Suc (length h)
           \<and> (\<forall>a. lookup h' a =
                 (if Some a = s then Some (SpecificLayersObj sl')
                  else if a = length h then Some (PayloadObj \<lparr>Data = data\<rparr>)
                  else lookup h a))"
  using specificLayers_at_SomeD[OF assms] decodePayload_eq[OF assms, of data]
  by (auto simp: specificLayers_at_def lookup_def nth_append nth_list_update)

theorem decodePayload_frame_witness:
  "specificLayers_at
     [SpecificLayersObj \<lparr>link = Some (ProtocolRef 1), network = None, transport = None,
                         application = None, errorLayer = None\<rparr>,
      ProtocolLayerObj (TYPE_PROTOCOL 1) [0x45, 0x00]] (Some 0)
     = Some \<lparr>link = Some (ProtocolRef 1), network = None, transport = None,
             application = None, errorLayer = None\<rparr> \<and>
   (\<exists>out h' sl'.
      decodePayload [0x45, 0x00] (Some 0)
        [SpecificLayersObj \<lparr>link = Some (ProtocolRef 1), network = None, transport = None,
                            application = None, errorLayer = None\<rparr>,
         ProtocolLayerObj (TYPE_PROTOCOL 1) [0x45, 0x00]] = Inr (out, h')
      \<and> specificLayers_at h' (Some 0) = Some sl'
      \<and> link sl' = Some (ProtocolRef 1) \<and> network sl' = None \<and> transport sl' = None
      \<and> errorLayer sl' = None)"
proof -
  have v: "specificLayers_at
     [SpecificLayersObj \<lparr>link = Some (ProtocolRef 1), network = None, transport = None,
                         application = None, errorLayer = None\<rparr>,
      ProtocolLayerObj (TYPE_PROTOCOL 1) [0x45, 0x00]] (Some 0)
     = Some \<lparr>link = Some (ProtocolRef 1), network = None, transport = None,
             application = None, errorLayer = None\<rparr>"
    by (simp add: specificLayers_at_def lookup_def)
  from decodePayload_frame[OF v, of "[0x45, 0x00]"] v show ?thesis by auto
qed

text \<open>
  C9: wrapping a function as a decoder changes nothing: the method \<^verbatim>\<open>decode\<close> of
  \<^verbatim>\<open>decoderFunc(d)\<close> returns exactly what \<open>d\<close> returns (or panics as \<open>d\<close> does).
\<close>

theorem decoderFunc_decode_is_call:
  "decode (DecoderFunc d) data s h = d data s h"
  by simp

text \<open>
  C10: after \<^verbatim>\<open>decodePayload\<close>, the layer of the result and the application slot of
  the struct are one and the same pointer, to a Payload that holds the input bytes.
\<close>

theorem decodePayload_same_pointer:
  assumes "specificLayers_at h s = Some sl"
  shows "\<exists>out h' sl' p. decodePayload data s h = Inr (out, h')
           \<and> specificLayers_at h' s = Some sl'
           \<and> layer out = Some (PayloadRef p)
           \<and> application sl' = layer out
           \<and> lookup h' p = Some (PayloadObj \<lparr>Data = data\<rparr>)"
  using specificLayers_at_SomeD[OF assms] decodePayload_eq[OF assms, of data]
  by (auto simp: specificLayers_at_def lookup_def nth_append nth_list_update)

theorem decodePayload_same_pointer_witness:
  "specificLayers_at [ErrorStringObj ''x'', SpecificLayersObj zero_specificLayers] (Some 1)
     = Some zero_specificLayers \<and>
   (\<exists>out h' sl' p.
      decodePayload [0x14] (Some 1) [ErrorStringObj ''x'', SpecificLayersObj zero_specificLayers]
        = Inr (out, h')
      \<and> specificLayers_at h' (Some 1) = Some sl'
      \<and> layer out = Some (PayloadRef p)
      \<and> application sl' = layer out
      \<and> lookup h' p = Some (PayloadObj \<lparr>Data = [0x14]\<rparr>))"
proof -
  have v: "specificLayers_at [ErrorStringObj ''x'', SpecificLayersObj zero_specificLayers] (Some 1)
     = Some zero_specificLayers"
    by (simp add: specificLayers_at_def lookup_def)
  from v decodePayload_same_pointer[OF v, of "[0x14]"] show ?thesis by (rule conjI)
qed

section \<open>The dispatcher\<close>

lemma dispatch_done:
  "pending p = None \<or> e p h \<Longrightarrow> dispatch e p h = Some (Inr (p, h))"
  by (subst dispatch.simps) simp

lemma dispatch_abort:
  "pending p \<noteq> None \<Longrightarrow> \<not> e p h \<Longrightarrow> dispatch_step p h = Inl x \<Longrightarrow> dispatch e p h = Some (Inl x)"
  by (subst dispatch.simps) auto

lemma dispatch_more:
  "pending p \<noteq> None \<Longrightarrow> \<not> e p h \<Longrightarrow> dispatch_step p h = Inr (p', h') \<Longrightarrow>
   dispatch e p h = dispatch e p' h'"
  by (subst dispatch.simps) auto

lemma not_never: "\<not> never p h"
  by (simp add: never_def)

lemma dispatch_resume_1:
  assumes "dispatch e p h = Some r"
  shows "dispatch e p h = Some r \<and>
         (\<forall>res. continue_with (dispatch never) (Some r) = Some res \<longrightarrow> dispatch never p h = Some res)"
proof (rule dispatch.raw_induct[where P = "\<lambda>e p h r. dispatch e p h = Some r \<and>
         (\<forall>res. continue_with (dispatch never) (Some r) = Some res \<longrightarrow> dispatch never p h = Some res)", OF _ assms])
  fix d e p h r
  assume IH: "\<And>e p h r. d e p h = Some r \<Longrightarrow> dispatch e p h = Some r \<and>
         (\<forall>res. continue_with (dispatch never) (Some r) = Some res \<longrightarrow> dispatch never p h = Some res)"
    and body: "(if pending p = None \<or> e p h then Some (Inr (p, h))
                else case dispatch_step p h of Inl x \<Rightarrow> Some (Inl x) | Inr (p', h') \<Rightarrow> d e p' h') = Some r"
  show "dispatch e p h = Some r \<and>
         (\<forall>res. continue_with (dispatch never) (Some r) = Some res \<longrightarrow> dispatch never p h = Some res)"
  proof (cases "pending p = None \<or> e p h")
    case True
    with body have r: "r = Inr (p, h)" by simp
    from True have "dispatch e p h = Some (Inr (p, h))" by (rule dispatch_done)
    with r show ?thesis by (simp add: continue_with_def)
  next
    case False
    then have np: "pending p \<noteq> None" by simp
    show ?thesis
    proof (cases "dispatch_step p h")
      case (Inl x)
      with body False have r: "r = Inl x" by simp
      from False Inl have 1: "dispatch e p h = Some (Inl x)" by (simp add: dispatch_abort)
      from np Inl have 2: "dispatch never p h = Some (Inl x)"
        by (simp add: dispatch_abort not_never)
      from r 1 2 show ?thesis by (simp add: continue_with_def)
    next
      case (Inr ph)
      obtain p' h' where ph: "ph = (p', h')" by (cases ph)
      from body False Inr ph have "d e p' h' = Some r" by simp
      from IH[OF this] have a: "dispatch e p' h' = Some r"
        and b: "\<forall>res. continue_with (dispatch never) (Some r) = Some res \<longrightarrow> dispatch never p' h' = Some res"
        by simp_all
      from False Inr ph have 1: "dispatch e p h = dispatch e p' h'" by (simp add: dispatch_more)
      from np Inr ph have 2: "dispatch never p h = dispatch never p' h'"
        by (simp add: dispatch_more not_never)
      from a b 1 2 show ?thesis by simp
    qed
  qed
qed

lemma dispatch_resume_2:
  assumes "dispatch never p h = Some res"
  shows "\<exists>r. dispatch e p h = Some r \<and> continue_with (dispatch never) (Some r) = Some res"
proof -
  have "never = never \<longrightarrow> dispatch never p h = Some res \<and>
          (\<exists>r. dispatch e p h = Some r \<and> continue_with (dispatch never) (Some r) = Some res)"
  proof (rule dispatch.raw_induct[where P = "\<lambda>e0 p h res. e0 = never \<longrightarrow> dispatch never p h = Some res \<and>
          (\<exists>r. dispatch e p h = Some r \<and> continue_with (dispatch never) (Some r) = Some res)", OF _ assms])
    fix d e0 p h res
    assume IH: "\<And>e0 p h res. d e0 p h = Some res \<Longrightarrow> e0 = never \<longrightarrow> dispatch never p h = Some res \<and>
          (\<exists>r. dispatch e p h = Some r \<and> continue_with (dispatch never) (Some r) = Some res)"
      and body: "(if pending p = None \<or> e0 p h then Some (Inr (p, h))
                else case dispatch_step p h of Inl x \<Rightarrow> Some (Inl x) | Inr (p', h') \<Rightarrow> d e0 p' h') = Some res"
    show "e0 = never \<longrightarrow> dispatch never p h = Some res \<and>
          (\<exists>r. dispatch e p h = Some r \<and> continue_with (dispatch never) (Some r) = Some res)"
    proof
      assume e0: "e0 = never"
      show "dispatch never p h = Some res \<and>
          (\<exists>r. dispatch e p h = Some r \<and> continue_with (dispatch never) (Some r) = Some res)"
      proof (cases "pending p = None")
        case True
        with body have res: "res = Inr (p, h)" by simp
        from True have 1: "dispatch never p h = Some (Inr (p, h))" by (simp add: dispatch_done)
        from True have 2: "dispatch e p h = Some (Inr (p, h))" by (simp add: dispatch_done)
        from res 1 2 show ?thesis by (simp add: continue_with_def)
      next
        case np: False
        show ?thesis
        proof (cases "dispatch_step p h")
          case (Inl x)
          with body np e0 have res: "res = Inl x" by (simp add: never_def)
          from np Inl have 1: "dispatch never p h = Some (Inl x)"
            by (simp add: dispatch_abort not_never)
          show ?thesis
          proof (cases "e p h")
            case True
            then have "dispatch e p h = Some (Inr (p, h))" by (simp add: dispatch_done)
            with res 1 show ?thesis by (simp add: continue_with_def)
          next
            case False
            with np Inl have "dispatch e p h = Some (Inl x)" by (simp add: dispatch_abort)
            with res 1 show ?thesis by (simp add: continue_with_def)
          qed
        next
          case (Inr ph)
          obtain p' h' where ph: "ph = (p', h')" by (cases ph)
          from body np e0 Inr ph have "d e0 p' h' = Some res" by (simp add: never_def)
          from IH[OF this] e0 obtain r where a: "dispatch never p' h' = Some res"
            and b: "dispatch e p' h' = Some r" and c: "continue_with (dispatch never) (Some r) = Some res"
            by blast
          from np Inr ph have 1: "dispatch never p h = dispatch never p' h'"
            by (simp add: dispatch_more not_never)
          show ?thesis
          proof (cases "e p h")
            case True
            then have "dispatch e p h = Some (Inr (p, h))" by (simp add: dispatch_done)
            with a 1 show ?thesis by (simp add: continue_with_def)
          next
            case False
            with np Inr ph have "dispatch e p h = dispatch e p' h'" by (simp add: dispatch_more)
            with a b c 1 show ?thesis by simp
          qed
        qed
      qed
    qed
  qed
  then show ?thesis by simp
qed

lemma dispatch_resume:
  "continue_with (dispatch never) (dispatch e p h) = dispatch never p h"
proof (cases "dispatch never p h")
  case None
  show ?thesis
  proof (cases "dispatch e p h")
    case n: None
    with None show ?thesis by (simp add: continue_with_def)
  next
    case (Some r)
    show ?thesis
    proof (cases "continue_with (dispatch never) (Some r)")
      case n: None
      with None Some show ?thesis by simp
    next
      case s: (Some res)
      from dispatch_resume_1[OF Some] s None show ?thesis by simp
    qed
  qed
next
  case (Some res)
  from dispatch_resume_2[OF Some, of e] show ?thesis using Some by auto
qed



section \<open>Lazy and Eager decoding\<close>

lemma satisfied_Layers: "satisfied Layers = never"
  by (intro ext) (simp add: never_def)

lemma access_Layers: "access Layers = dispatch never"
  by (intro ext) (simp add: access_def satisfied_Layers)

lemma continue_with_assoc:
  "continue_with k (continue_with k' r) = continue_with (\<lambda>p h. continue_with k (k' p h)) r"
  by (auto simp: continue_with_def split: option.splits sum.splits)

lemma continue_with_return: "continue_with k (Some (Inr (p, h))) = k p h"
  by (simp add: continue_with_def)

lemma accesses_then_all:
  "continue_with (dispatch never) (accesses rs p h) = dispatch never p h"
proof (induction rs arbitrary: p h)
  case Nil
  show ?case by (simp add: continue_with_return)
next
  case (Cons r rs)
  have "continue_with (dispatch never) (accesses (r # rs) p h)
        = continue_with (\<lambda>p h. continue_with (dispatch never) (accesses rs p h)) (access r p h)"
    by (simp add: continue_with_assoc)
  also have "\<dots> = continue_with (dispatch never) (access r p h)"
    by (simp add: Cons.IH)
  also have "\<dots> = dispatch never p h"
    by (simp add: access_def dispatch_resume)
  finally show ?case .
qed

lemma dispatch_complete:
  assumes "dispatch e p h = Some r"
  shows "e = never \<longrightarrow> (\<forall>p' h'. r = Inr (p', h') \<longrightarrow> pending p' = None)"
proof (rule dispatch.raw_induct[where P = "\<lambda>e p h r. e = never \<longrightarrow> (\<forall>p' h'. r = Inr (p', h') \<longrightarrow> pending p' = None)", OF _ assms])
  fix d e p h r
  assume IH: "\<And>e p h r. d e p h = Some r \<Longrightarrow> e = never \<longrightarrow> (\<forall>p' h'. r = Inr (p', h') \<longrightarrow> pending p' = None)"
    and body: "(if pending p = None \<or> e p h then Some (Inr (p, h))
                else case dispatch_step p h of Inl x \<Rightarrow> Some (Inl x) | Inr (p', h') \<Rightarrow> d e p' h') = Some r"
  show "e = never \<longrightarrow> (\<forall>p' h'. r = Inr (p', h') \<longrightarrow> pending p' = None)"
  proof
    assume e: "e = never"
    show "\<forall>p' h'. r = Inr (p', h') \<longrightarrow> pending p' = None"
    proof (cases "pending p = None")
      case True
      with body show ?thesis by auto
    next
      case False
      show ?thesis
      proof (cases "dispatch_step p h")
        case (Inl x)
        with body False e show ?thesis by (auto simp: never_def)
      next
        case (Inr ph)
        obtain p1 h1 where ph: "ph = (p1, h1)" by (cases ph)
        from body False e Inr ph have "d e p1 h1 = Some r" by (auto simp: never_def)
        from IH[OF this] e show ?thesis by simp
      qed
    qed
  qed
qed

lemma accesses_done: "pending p = None \<Longrightarrow> accesses rs p h = Some (Inr (p, h))"
  by (induction rs) (simp_all add: access_def dispatch_done continue_with_return)

lemma eager_accesses_pure:
  "continue_with (accesses rs) (dispatch never p h) = dispatch never p h"
proof (cases "dispatch never p h")
  case None
  then show ?thesis by (simp add: continue_with_def)
next
  case (Some r)
  show ?thesis
  proof (cases r)
    case (Inl x)
    with Some show ?thesis by (simp add: continue_with_def)
  next
    case (Inr ph)
    obtain p' h' where ph: "ph = (p', h')" by (cases ph)
    from dispatch_complete[OF Some] Inr ph have "pending p' = None" by simp
    with Some Inr ph show ?thesis by (simp add: continue_with_return accesses_done)
  qed
qed

lemma dispatch_step_mode:
  "dispatch_step (p\<lparr>mode := m\<rparr>) h = map_sum id (with_mode m) (dispatch_step p h)"
  by (auto simp: dispatch_step_def with_mode_def alloc_def split: option.splits sum.splits prod.splits)

lemma dispatch_mode_Some:
  assumes "dispatch e p h = Some r"
  shows "e = never \<longrightarrow> dispatch never (p\<lparr>mode := m\<rparr>) h = Some (map_sum id (with_mode m) r)"
proof (rule dispatch.raw_induct[where P = "\<lambda>e p h r. e = never \<longrightarrow>
          dispatch never (p\<lparr>mode := m\<rparr>) h = Some (map_sum id (with_mode m) r)", OF _ assms])
  fix d e p h r
  assume IH: "\<And>e p h r. d e p h = Some r \<Longrightarrow> e = never \<longrightarrow>
          dispatch never (p\<lparr>mode := m\<rparr>) h = Some (map_sum id (with_mode m) r)"
    and body: "(if pending p = None \<or> e p h then Some (Inr (p, h))
                else case dispatch_step p h of Inl x \<Rightarrow> Some (Inl x) | Inr (p', h') \<Rightarrow> d e p' h') = Some r"
  show "e = never \<longrightarrow> dispatch never (p\<lparr>mode := m\<rparr>) h = Some (map_sum id (with_mode m) r)"
  proof
    assume e: "e = never"
    show "dispatch never (p\<lparr>mode := m\<rparr>) h = Some (map_sum id (with_mode m) r)"
    proof (cases "pending p = None")
      case True
      with body have "r = Inr (p, h)" by simp
      with True show ?thesis by (simp add: dispatch_done with_mode_def)
    next
      case False
      then have np: "pending (p\<lparr>mode := m\<rparr>) \<noteq> None" by simp
      show ?thesis
      proof (cases "dispatch_step p h")
        case (Inl x)
        with body False e have r: "r = Inl x" by (auto simp: never_def)
        from Inl have "dispatch_step (p\<lparr>mode := m\<rparr>) h = Inl x" by (simp add: dispatch_step_mode)
        from dispatch_abort[OF np not_never this] r show ?thesis by simp
      next
        case (Inr ph)
        obtain p1 h1 where ph: "ph = (p1, h1)" by (cases ph)
        from body False e Inr ph have "d e p1 h1 = Some r" by (auto simp: never_def)
        from IH[OF this] e
        have a: "dispatch never (p1\<lparr>mode := m\<rparr>) h1 = Some (map_sum id (with_mode m) r)" by simp
        from Inr ph have "dispatch_step (p\<lparr>mode := m\<rparr>) h = Inr (p1\<lparr>mode := m\<rparr>, h1)"
          by (simp add: dispatch_step_mode with_mode_def)
        from dispatch_more[OF np not_never this] a show ?thesis by simp
      qed
    qed
  qed
qed

lemma dispatch_mode:
  "dispatch never (p\<lparr>mode := m\<rparr>) h = map_option (map_sum id (with_mode m)) (dispatch never p h)"
proof (cases "dispatch never p h")
  case (Some r)
  with dispatch_mode_Some[OF Some, of m] show ?thesis by simp
next
  case None
  show ?thesis
  proof (cases "dispatch never (p\<lparr>mode := m\<rparr>) h")
    case n: None
    with None show ?thesis by simp
  next
    case (Some r)
    from dispatch_mode_Some[OF Some, of "mode p"] None show ?thesis by simp
  qed
qed

lemma outcome_with_mode: "outcome (map_option (map_sum id (with_mode m)) r) = outcome r"
proof -
  have "map_sum id decoded (map_sum id (with_mode m) x) = map_sum id decoded x" for x
    by (cases x) (simp_all add: decoded_def with_mode_def)
  then show ?thesis by (cases r) (simp_all add: outcome_def)
qed

text \<open>
  C1: for every registry, byte span, link type and store, a Lazy packet that is decoded
  fully (after any sequence of earlier accesses, by asking for the full layer sequence)
  and an Eager packet end with the same ordered layer sequence, the same SpecificLayers
  contents and the same store, or neither returns, or both panic alike. The mode decides
  when layers are computed, not what they contain.
\<close>

theorem mode_equivalence:
  "outcome (continue_with (access Layers) (continue_with (accesses rs) (NewPacket reg data lt Lazy h)))
   = outcome (continue_with (access Layers) (continue_with (accesses rs') (NewPacket reg data lt Eager h)))"
proof -
  define p where "p = \<lparr>raw = data, layers = [], specific = length h,
               pending = Some (registry_lookup reg lt, data), mode = Eager\<rparr>"
  define h1 where "h1 = h @ [SpecificLayersObj zero_specificLayers]"
  have E: "NewPacket reg data lt Eager h = dispatch never p h1"
    by (simp add: NewPacket_def alloc_def p_def h1_def)
  have L: "NewPacket reg data lt Lazy h = Some (Inr (p\<lparr>mode := Lazy\<rparr>, h1))"
    by (simp add: NewPacket_def alloc_def p_def h1_def Lazy_def Eager_def)
  have "continue_with (access Layers) (continue_with (accesses rs) (NewPacket reg data lt Lazy h))
        = dispatch never (p\<lparr>mode := Lazy\<rparr>) h1"
    by (simp add: L continue_with_return access_Layers accesses_then_all)
  moreover have "continue_with (access Layers) (continue_with (accesses rs') (NewPacket reg data lt Eager h))
        = dispatch never p h1"
    using dispatch_resume[of never p h1]
    by (simp add: E eager_accesses_pure access_Layers)
  ultimately show ?thesis by (simp add: dispatch_mode outcome_with_mode)
qed


section \<open>Unknown link types\<close>

lemma dispatch_step_unknown:
  "dispatch_step \<lparr>raw = data, layers = [], specific = s,
                   pending = Some (DecoderFunc decodeUnknown, bs), mode = m\<rparr> h
   = Inr (\<lparr>raw = data, layers = [DecodeFailureRef (Suc (length h))], specific = s,
            pending = None, mode = m\<rparr>,
          h @ [ErrorStringObj ''Link type not currently supported'',
               DecodeFailureObj \<lparr>df_data = bs, df_err = Some (ErrorStringRef (length h))\<rparr>])"
  by (simp add: dispatch_step_def decodeUnknown_eq alloc_def)

lemma unknown_link_type_chain:
  assumes "reg lt = None"
  shows "continue_with (access Layers) (NewPacket reg data lt m h)
     = Some (Inr (\<lparr>raw = data, layers = [DecodeFailureRef (length h + 2)], specific = length h,
                    pending = None, mode = m\<rparr>,
                  h @ [SpecificLayersObj zero_specificLayers,
                       ErrorStringObj ''Link type not currently supported'',
                       DecodeFailureObj \<lparr>df_data = data, df_err = Some (ErrorStringRef (length h + 1))\<rparr>]))"
proof -
  let ?p = "\<lparr>raw = data, layers = [], specific = length h,
             pending = Some (DecoderFunc decodeUnknown, data), mode = m\<rparr>"
  let ?h1 = "h @ [SpecificLayersObj zero_specificLayers]"
  have run: "dispatch never ?p ?h1
     = Some (Inr (\<lparr>raw = data, layers = [DecodeFailureRef (length h + 2)], specific = length h,
                    pending = None, mode = m\<rparr>,
                  h @ [SpecificLayersObj zero_specificLayers,
                       ErrorStringObj ''Link type not currently supported'',
                       DecodeFailureObj \<lparr>df_data = data, df_err = Some (ErrorStringRef (length h + 1))\<rparr>]))"
    by (subst dispatch.simps, simp add: never_def dispatch_step_unknown, subst dispatch.simps, simp)
  show ?thesis
  proof (cases "m = Eager")
    case True
    with assms run show ?thesis
      by (simp add: NewPacket_def alloc_def registry_lookup_def continue_with_return
          access_Layers dispatch_done)
  next
    case False
    with assms run show ?thesis
      by (simp add: NewPacket_def alloc_def registry_lookup_def continue_with_return access_Layers)
  qed
qed

text \<open>
  C4, amended: the failure that \<^verbatim>\<open>decodeUnknown\<close> reports has the text
  "Link type not currently supported"; decoding a packet whose link type is not registered,
  in either mode, returns without a panic and yields a chain of exactly one error layer
  whose error has that text.
\<close>

theorem decodeUnknown_cause:
  assumes "reg lt = None"
  shows "failure_cause (decodeUnknown data s h) = Some ''Link type not currently supported'' \<and>
         (\<exists>p h' f e.
            continue_with (access Layers) (NewPacket reg data lt m h) = Some (Inr (p, h')) \<and>
            layers p = [DecodeFailureRef f] \<and>
            DecodeFailure_Error h' (Some f) = Inr (Some e) \<and>
            error_text h' e = Some ''Link type not currently supported'')"
proof (rule conjI)
  show "failure_cause (decodeUnknown data s h) = Some ''Link type not currently supported''"
    by (simp add: failure_cause_def decodeUnknown_eq error_text_def lookup_def)
  show "\<exists>p h' f e.
            continue_with (access Layers) (NewPacket reg data lt m h) = Some (Inr (p, h')) \<and>
            layers p = [DecodeFailureRef f] \<and>
            DecodeFailure_Error h' (Some f) = Inr (Some e) \<and>
            error_text h' e = Some ''Link type not currently supported''"
    by (simp add: unknown_link_type_chain[where reg = reg and lt = lt, OF assms] DecodeFailure_Error_def deref_DecodeFailure_def
        error_text_def lookup_def nth_append)
qed

theorem decodeUnknown_cause_witness:
  "(Map.empty :: DecoderRegistry) 1 = None \<and>
   failure_cause (decodeUnknown [0x45, 0x00] None []) = Some ''Link type not currently supported'' \<and>
   (\<exists>p h' f e.
      continue_with (access Layers) (NewPacket Map.empty [0x45, 0x00] 1 Eager []) = Some (Inr (p, h')) \<and>
      layers p = [DecodeFailureRef f] \<and>
      DecodeFailure_Error h' (Some f) = Inr (Some e) \<and>
      error_text h' e = Some ''Link type not currently supported'')"
proof -
  have v: "(Map.empty :: DecoderRegistry) 1 = None" by simp
  from v decodeUnknown_cause[where reg = "Map.empty" and lt = 1 and data = "[0x45, 0x00]"
      and s = None and h = "[]" and m = Eager, OF v]
  show ?thesis by (rule conjI)
qed

text \<open>
  C4 as stated fails: the text of the failure is not "unsupported link type".
\<close>

theorem decodeUnknown_cause_counterexample:
  "failure_cause (decodeUnknown [0x45, 0x00] None []) \<noteq> Some ''unsupported link type''"
  by (simp add: failure_cause_def decodeUnknown_eq error_text_def lookup_def)

section \<open>An example chain\<close>

text \<open>
  With \<^verbatim>\<open>decodePayload\<close> registered for link type 1, an Eager packet over two bytes
  has one payload layer, which is also in the application slot.
\<close>

lemma payload_packet_example:
  "outcome (NewPacket (Register 1 (DecoderFunc decodePayload) Map.empty) [0x45, 0x00] 1 Eager [])
   = Some (Inr ([PayloadRef 1],
                Some (zero_specificLayers\<lparr>application := Some (PayloadRef 1)\<rparr>),
                [SpecificLayersObj (zero_specificLayers\<lparr>application := Some (PayloadRef 1)\<rparr>),
                 PayloadObj \<lparr>Data = [0x45, 0x00]\<rparr>]))"
proof -
  have v: "specificLayers_at [SpecificLayersObj zero_specificLayers] (Some 0) = Some zero_specificLayers"
    by (simp add: specificLayers_at_def lookup_def)
  have step: "dispatch_step \<lparr>raw = [0x45, 0x00], layers = [], specific = 0,
                   pending = Some (DecoderFunc decodePayload, [0x45, 0x00]), mode = Eager\<rparr>
                [SpecificLayersObj zero_specificLayers]
     = Inr (\<lparr>raw = [0x45, 0x00], layers = [PayloadRef 1], specific = 0, pending = None, mode = Eager\<rparr>,
            [SpecificLayersObj (zero_specificLayers\<lparr>application := Some (PayloadRef 1)\<rparr>),
             PayloadObj \<lparr>Data = [0x45, 0x00]\<rparr>])"
    by (simp add: dispatch_step_def decodePayload_eq[OF v])
  show ?thesis
    by (simp add: NewPacket_def alloc_def registry_lookup_def Register_def outcome_def decoded_def,
        subst dispatch.simps, simp add: never_def step, subst dispatch.simps,
        simp add: specificLayers_at_def lookup_def decoded_def)
qed


end
